theory Spec2Isabelle
  imports Main "HOL-Library.Monad_Syntax" "HOL-Library.Sublist"
begin

section \<open>Kindle highlights parser: shallow embedding of highlights_parser.py\<close>

text \<open>
  Python \<open>str\<close> values are modelled as \<open>string\<close> (a list of \<open>char\<close>); one \<open>char\<close> stands
  for one code point, so the model covers texts whose code points are below 256.
  A computation that may raise is a value of type \<open>'a option\<close>: \<open>None\<close> stands for a raised
  exception (\<open>IndexError\<close> of a list subscript, \<open>ValueError\<close> of \<open>str.split\<close> with an empty
  separator), \<open>Some r\<close> for a normal return of \<open>r\<close>. The file content read by
  \<open>Parser.parse_highlights\<close> is the argument \<open>data\<close> of its model.
\<close>

subsection \<open>Python built-ins used by the parser\<close>

definition HIGHLIGHT_SEPARATOR :: string where
  "HIGHLIGHT_SEPARATOR = ''==========''"

text \<open>
  \<open>s.split(sep)\<close> for a non-empty \<open>sep\<close>: the occurrences of \<open>sep\<close> are found from left to
  right without overlap; the result always has at least one element.
\<close>

fun split_on :: "string \<Rightarrow> string \<Rightarrow> string list" where
  "split_on sep [] = [[]]"
| "split_on sep (c # cs) =
     (if prefix sep (c # cs) then [] # split_on sep (drop (length sep - 1) cs)
      else (case split_on sep cs of
              [] \<Rightarrow> [[c]]
            | x # xs \<Rightarrow> (c # x) # xs))"

text \<open>\<open>s.split(sep)\<close>: raises \<open>ValueError\<close> when \<open>sep\<close> is empty.\<close>

definition py_split :: "string \<Rightarrow> string \<Rightarrow> string list option" where
  "py_split s sep = (if sep = [] then None else Some (split_on sep s))"

text \<open>\<open>xs[i]\<close>: a negative index counts from the end; out of range raises \<open>IndexError\<close>.\<close>

definition py_index :: "'a list \<Rightarrow> int \<Rightarrow> 'a option" where
  "py_index xs i =
     (let n = int (length xs) in
      if 0 \<le> i \<and> i < n then Some (xs ! nat i)
      else if - n \<le> i \<and> i < 0 then Some (xs ! nat (i + n))
      else None)"

text \<open>
  Slices never raise: a negative bound counts from the end, and every bound is clamped
  to the length of the sequence.
\<close>

definition py_clamp :: "nat \<Rightarrow> int \<Rightarrow> nat" where
  "py_clamp n i = (if i < 0 then nat (max (i + int n) 0) else min (nat i) n)"

text \<open>\<open>xs[lo:hi]\<close>\<close>

definition py_slice :: "'a list \<Rightarrow> int \<Rightarrow> int \<Rightarrow> 'a list" where
  "py_slice xs lo hi =
     (let l = py_clamp (length xs) lo; h = py_clamp (length xs) hi in
      take (h - l) (drop l xs))"

text \<open>\<open>xs[lo:]\<close>\<close>

definition py_slice_from :: "'a list \<Rightarrow> int \<Rightarrow> 'a list" where
  "py_slice_from xs lo = drop (py_clamp (length xs) lo) xs"

text \<open>\<open>xs[:hi]\<close>\<close>

definition py_slice_to :: "'a list \<Rightarrow> int \<Rightarrow> 'a list" where
  "py_slice_to xs hi = take (py_clamp (length xs) hi) xs"

text \<open>\<open>s.find(sub)\<close>: the lowest index at which \<open>sub\<close> occurs in \<open>s\<close>, or \<open>-1\<close>.\<close>

fun py_find :: "string \<Rightarrow> string \<Rightarrow> int" where
  "py_find [] sub = (if sub = [] then 0 else - 1)"
| "py_find (c # cs) sub =
     (if prefix sub (c # cs) then 0
      else (let r = py_find cs sub in if r < 0 then - 1 else r + 1))"

text \<open>
  \<open>c.isspace()\<close> on the code points below 256: the characters that \<open>str.strip()\<close>
  removes.
\<close>

definition py_isspace :: "char \<Rightarrow> bool" where
  "py_isspace c =
     (let n = (of_char c :: nat) in
      (9 \<le> n \<and> n \<le> 13) \<or> (28 \<le> n \<and> n \<le> 32) \<or> n = 133 \<or> n = 160)"

text \<open>\<open>s.strip()\<close>\<close>

definition py_strip :: "string \<Rightarrow> string" where
  "py_strip s = rev (dropWhile py_isspace (rev (dropWhile py_isspace s)))"

text \<open>\<open>s.replace(old, new)\<close> for one-character \<open>old\<close> and \<open>new\<close>.\<close>

definition replace_char :: "char \<Rightarrow> char \<Rightarrow> string \<Rightarrow> string" where
  "replace_char old new s = map (\<lambda>c. if c = old then new else c) s"

text \<open>
  The regular expression \<open>\((.*?)\)\<close>. \<open>group_here s\<close> matches \<open>(.*?)\)\<close> at the start
  of \<open>s\<close> (the text after an opening parenthesis): the group is the shortest text up to
  a closing parenthesis, and \<open>.\<close> does not match a newline.
\<close>

fun group_here :: "string \<Rightarrow> string option" where
  "group_here [] = None"
| "group_here (c # cs) =
     (if c = CHR '')'' then Some []
      else if c = CHR ''\<newline>'' then None
      else map_option (Cons c) (group_here cs))"

text \<open>
  \<open>re.search(regex, s)\<close>: the match at the lowest start index, returned as
  \<open>(match.start(), match.group(1))\<close>; \<open>None\<close> when the pattern matches nowhere.
\<close>

fun re_search :: "string \<Rightarrow> (nat \<times> string) option" where
  "re_search [] = None"
| "re_search (c # cs) =
     (case (if c = CHR ''('' then group_here cs else None) of
        Some g \<Rightarrow> Some (0, g)
      | None \<Rightarrow> map_option (\<lambda>(i, g). (Suc i, g)) (re_search cs))"

subsection \<open>Highlight\<close>

text \<open>
  \<open>Highlight.parse_single_highlight\<close>. The returned tuple is
  \<open>(title, author, content, page, date)\<close>.
\<close>

definition parse_single_highlight ::
  "string \<Rightarrow> (string \<times> string \<times> string \<times> string \<times> string) option" where
  "parse_single_highlight highlight_string = do {
     raw_lines \<leftarrow> py_split highlight_string ''\<newline>'';
     let split_string = filter (\<lambda>l. l \<noteq> []) raw_lines;
     if length split_string \<noteq> 3 then Some ([], [], [], [], [])
     else do {
       author_line \<leftarrow> py_index split_string 0;
       content \<leftarrow> py_index split_string (- 1);
       details_line \<leftarrow> py_index split_string (- 2);
       details \<leftarrow> py_split details_line ''|'';
       case re_search author_line of
         None \<Rightarrow> Some ([], [], [], [], [])
       | Some (start, grp) \<Rightarrow> do {
           let author = grp;
           let title = py_slice_to author_line (int start);
           last_segment \<leftarrow> py_index details (- 1);
           let date = py_slice_from last_segment 10;
           first_segment \<leftarrow> py_index details 0;
           let page_idx = py_find (py_strip first_segment) ''page'';
           let page = ''P'' @ py_slice first_segment (page_idx + 1) (- 1);
           Some (title, author, content, page, date)
         }
     }
   }"

record Highlight =
  title :: string
  author :: string
  content :: string
  date :: string
  page :: string

text \<open>
  \<open>Highlight.__init__\<close>: the tuple of \<open>parse_single_highlight\<close> is unpacked into the
  attributes in the order \<open>title, author, content, date, page\<close>, so the attribute \<open>date\<close>
  receives the fourth component and the attribute \<open>page\<close> the fifth.
\<close>

definition Highlight_init :: "string \<Rightarrow> Highlight option" where
  "Highlight_init raw_string = do {
     (r1, r2, r3, r4, r5) \<leftarrow> parse_single_highlight raw_string;
     Some \<lparr>title = r1, author = r2, content = r3, date = r4, page = r5\<rparr>
   }"

subsection \<open>Formatting\<close>

datatype Formatting = BULLET | QUOTE | PARAGRAPH

text \<open>
  \<open>Formatting.format_highlight\<close>. The enumeration has three members, so the
  \<open>case _\<close> branch that raises \<open>ValueError\<close> has no input.
\<close>

definition format_highlight :: "Formatting \<Rightarrow> Highlight \<Rightarrow> bool \<Rightarrow> bool \<Rightarrow> string" where
  "format_highlight self highlight add_date add_page =
     (let formatted_text = replace_char (CHR ''\<newline>'') (CHR '' '') (content highlight);
          formatted_text =
            (case self of
               QUOTE \<Rightarrow> ''- '' @ formatted_text
             | BULLET \<Rightarrow> ''> '' @ formatted_text
             | PARAGRAPH \<Rightarrow> formatted_text);
          formatted_text =
            (if add_date \<and> add_page then
               formatted_text @ '' (Added on '' @ date highlight @ '', '' @ page highlight @ '')''
             else if add_date \<and> \<not> add_page then
               formatted_text @ '' (Added on '' @ date highlight @ '')''
             else if \<not> add_date \<and> add_page then
               formatted_text @ '' ('' @ page highlight @ '')''
             else formatted_text)
      in formatted_text @ ''\<newline>'')"

subsection \<open>Parser\<close>

text \<open>
  \<open>Parser.books\<close> is a dictionary whose iteration order is the insertion order of its
  keys: an association list with distinct keys, the newest key last.
\<close>

type_synonym books = "((string \<times> string) \<times> Highlight list) list"

text \<open>
  \<open>self.books[k].append(h)\<close> on a \<open>defaultdict(list)\<close>: a key that is present keeps its
  place and its list grows at the end; a new key is inserted last with the list \<open>[h]\<close>.
\<close>

fun books_append :: "books \<Rightarrow> string \<times> string \<Rightarrow> Highlight \<Rightarrow> books" where
  "books_append [] k h = [(k, [h])]"
| "books_append ((k', hs) # rest) k h =
     (if k' = k then (k', hs @ [h]) # rest else (k', hs) # books_append rest k h)"

text \<open>The body of the loop of \<open>Parser.parse_highlights\<close>, for one chunk.\<close>

definition parse_step :: "books \<Rightarrow> string \<Rightarrow> books option" where
  "parse_step bks raw_string = do {
     h \<leftarrow> Highlight_init raw_string;
     Some (if title h \<noteq> [] \<and> author h \<noteq> []
           then books_append bks (author h, title h) h
           else bks)
   }"

text \<open>The loop \<open>for raw_string in highlights\<close>.\<close>

fun parse_loop :: "books \<Rightarrow> string list \<Rightarrow> books option" where
  "parse_loop bks [] = Some bks"
| "parse_loop bks (raw_string # rest) = do {
     bks' \<leftarrow> parse_step bks raw_string;
     parse_loop bks' rest
   }"

text \<open>\<open>Parser.parse_highlights\<close> on a new \<open>Parser\<close>, given the content of the file.\<close>

definition parse_highlights :: "string \<Rightarrow> books option" where
  "parse_highlights data = do {
     highlights \<leftarrow> py_split data HIGHLIGHT_SEPARATOR;
     parse_loop [] highlights
   }"

subsection \<open>Derived notions used in the statements\<close>

text \<open>
  The lines of a chunk that \<open>filter(None, ...)\<close> keeps: the elements of
  \<open>highlight_string.split("\n")\<close> that are not the empty string.
\<close>

definition nonempty_lines :: "string \<Rightarrow> string list" where
  "nonempty_lines s = filter (\<lambda>l. l \<noteq> []) (split_on ''\<newline>'' s)"

text \<open>The tuple of the two early returns of \<open>parse_single_highlight\<close>.\<close>

definition empty_record :: "string \<times> string \<times> string \<times> string \<times> string" where
  "empty_record = ([], [], [], [], [])"

text \<open>The three-line chunk of the sample scenario.\<close>

definition sample_chunk :: string where
  "sample_chunk =
     ''Sample Book (Jane Doe)\<newline>- Your Highlight on page 12 | Added on Monday, May 1, 2023 10:00:00 AM\<newline>This is the highlighted text.''"

text \<open>
  The test \<open>h.title and h.author\<close> of the loop of \<open>Parser.parse_highlights\<close>, and the
  key \<open>(h.author, h.title)\<close> under which a record is appended.
\<close>

definition highlight_valid :: "Highlight \<Rightarrow> bool" where
  "highlight_valid h = (title h \<noteq> [] \<and> author h \<noteq> [])"

definition book_key :: "Highlight \<Rightarrow> string \<times> string" where
  "book_key h = (author h, title h)"

definition add_highlight :: "books \<Rightarrow> Highlight \<Rightarrow> books" where
  "add_highlight bks h = books_append bks (book_key h) h"

text \<open>A text with three entries of two books, the first and the third of the same book.\<close>

definition two_books_text :: string where
  "two_books_text =
     ''A (X)\<newline>m\<newline>c1\<newline>==========\<newline>B (Y)\<newline>m\<newline>c2\<newline>==========\<newline>A (X)\<newline>m\<newline>c3\<newline>==========\<newline>''"

text \<open>
  \<open>sep.join(xs)\<close>, the inverse of \<open>split\<close>: it is used to state that the chunks and the
  separators between them make up the whole text.
\<close>

fun py_join :: "string \<Rightarrow> string list \<Rightarrow> string" where
  "py_join sep [] = []"
| "py_join sep [x] = x"
| "py_join sep (x # y # ys) = x @ sep @ py_join sep (y # ys)"

section \<open>Auxiliary lemmas\<close>

subsection \<open>Subscripts, slices and the early returns\<close>

lemma split_on_not_Nil: "split_on sep s \<noteq> []"
  by (induction sep s rule: split_on.induct) (auto split: list.splits)

lemma py_index_first: "xs \<noteq> [] \<Longrightarrow> py_index xs 0 = Some (hd xs)"
  by (cases xs) (simp_all add: py_index_def)

lemma py_index_last: "xs \<noteq> [] \<Longrightarrow> py_index xs (- 1) = Some (last xs)"
  by (cases xs rule: rev_cases) (simp_all add: py_index_def nth_append)

lemma py_index_three:
  "py_index [a, b, c] 0 = Some a" "py_index [a, b, c] (- 1) = Some c"
  "py_index [a, b, c] (- 2) = Some b"
  by (simp_all add: py_index_def)

lemma group_here_length: "group_here s = Some g \<Longrightarrow> length g < length s"
  by (induction s arbitrary: g) (auto split: if_splits)

lemma re_search_start: "re_search s = Some (i, g) \<Longrightarrow> i < length s"
  by (induction s arbitrary: i g) (auto split: if_splits option.splits)

lemma py_slice_to_nat: "i \<le> length xs \<Longrightarrow> py_slice_to xs (int i) = take i xs"
  by (simp add: py_slice_to_def py_clamp_def)

lemma py_slice_from_10: "py_slice_from xs 10 = drop 10 xs"
  by (simp add: py_slice_from_def py_clamp_def min_def)

lemma parse_wrong_count:
  "length (nonempty_lines s) \<noteq> 3 \<Longrightarrow> parse_single_highlight s = Some empty_record"
  by (simp add: parse_single_highlight_def py_split_def nonempty_lines_def empty_record_def)

lemma parse_no_match:
  "nonempty_lines s = [h, m, c] \<Longrightarrow> re_search h = None \<Longrightarrow>
   parse_single_highlight s = Some empty_record"
  by (simp add: parse_single_highlight_def py_split_def nonempty_lines_def empty_record_def
      py_index_three)

lemma parse_match:
  "nonempty_lines s = [h, m, c] \<Longrightarrow> re_search h = Some (i, g) \<Longrightarrow>
   parse_single_highlight s =
     Some (take i h, g, c,
           ''P'' @ py_slice (hd (split_on ''|'' m))
                     (py_find (py_strip (hd (split_on ''|'' m))) ''page'' + 1) (- 1),
           drop 10 (last (split_on ''|'' m)))"
  using re_search_start [of h i g]
  by (simp add: parse_single_highlight_def py_split_def nonempty_lines_def
      py_index_three py_index_first py_index_last split_on_not_Nil py_slice_to_nat
      py_slice_from_10)

subsection \<open>The regular expression and the line split\<close>

lemma group_here_append:
  "CHR '')'' \<notin> set a \<Longrightarrow> CHR ''\<newline>'' \<notin> set a \<Longrightarrow> group_here (a @ CHR '')'' # r) = Some a"
  by (induction a) auto

lemma group_here_SomeD:
  "group_here s = Some g \<Longrightarrow>
   \<exists>r. s = g @ CHR '')'' # r \<and> CHR '')'' \<notin> set g \<and> CHR ''\<newline>'' \<notin> set g"
  by (induction s arbitrary: g) (auto split: if_splits)

lemma group_here_exists:
  "CHR ''\<newline>'' \<notin> set a \<Longrightarrow> \<exists>g. group_here (a @ CHR '')'' # r) = Some g"
  by (induction a) auto

lemma re_search_first:
  "CHR ''('' \<notin> set t \<Longrightarrow> CHR '')'' \<notin> set a \<Longrightarrow> CHR ''\<newline>'' \<notin> set a \<Longrightarrow>
   re_search (t @ CHR ''('' # a @ CHR '')'' # r) = Some (length t, a)"
  by (induction t) (auto simp: group_here_append)

lemma re_search_SomeD:
  "re_search s = Some (i, g) \<Longrightarrow>
   \<exists>r. s = take i s @ CHR ''('' # g @ CHR '')'' # r \<and> i < length s
       \<and> CHR '')'' \<notin> set g \<and> CHR ''\<newline>'' \<notin> set g"
proof (induction s arbitrary: i g)
  case Nil
  then show ?case by simp
next
  case (Cons c cs)
  show ?case
  proof (cases "c = CHR ''('' \<and> group_here cs \<noteq> None")
    case True
    then obtain g' where g': "group_here cs = Some g'" by auto
    with True Cons.prems have "i = 0" "g = g'" by auto
    with g' True group_here_SomeD [OF g'] show ?thesis by auto
  next
    case False
    with Cons.prems obtain j where j: "re_search cs = Some (j, g)" "i = Suc j"
      by (auto split: if_splits option.splits)
    from Cons.IH [OF j(1)] j(2) show ?thesis by auto
  qed
qed

lemma re_search_exists:
  "CHR ''\<newline>'' \<notin> set a \<Longrightarrow> \<exists>i g. re_search (t @ CHR ''('' # a @ CHR '')'' # r) = Some (i, g)"
proof (induction t)
  case Nil
  with group_here_exists [of a r] show ?case by auto
next
  case (Cons c t)
  then show ?case by (auto split: option.splits)
qed

lemma re_search_None_iff:
  "CHR ''\<newline>'' \<notin> set s \<Longrightarrow>
   re_search s = None \<longleftrightarrow> \<not> (\<exists>t a r. s = t @ ''('' @ a @ '')'' @ r)"
proof
  assume nl: "CHR ''\<newline>'' \<notin> set s" and n: "re_search s = None"
  show "\<not> (\<exists>t a r. s = t @ ''('' @ a @ '')'' @ r)"
  proof
    assume "\<exists>t a r. s = t @ ''('' @ a @ '')'' @ r"
    then obtain t a r where s: "s = t @ CHR ''('' # a @ CHR '')'' # r" by auto
    with nl have "CHR ''\<newline>'' \<notin> set a" by auto
    from re_search_exists [OF this, of t r] s n show False by auto
  qed
next
  assume "\<not> (\<exists>t a r. s = t @ ''('' @ a @ '')'' @ r)"
  show "re_search s = None"
  proof (rule ccontr)
    assume "re_search s \<noteq> None"
    then obtain i g where "re_search s = Some (i, g)" by auto
    from re_search_SomeD [OF this] obtain r where "s = take i s @ ''('' @ g @ '')'' @ r" by auto
    with \<open>\<not> (\<exists>t a r. s = t @ ''('' @ a @ '')'' @ r)\<close> show False by blast
  qed
qed

lemma split_on_char_hit:
  "ch \<notin> set a \<Longrightarrow> split_on [ch] (a @ ch # b) = a # split_on [ch] b"
  by (induction a) auto

lemma split_on_char_miss: "ch \<notin> set a \<Longrightarrow> split_on [ch] a = [a]"
  by (induction a) auto

lemma split_on_char_free: "x \<in> set (split_on [ch] s) \<Longrightarrow> ch \<notin> set x"
  by (induction s arbitrary: x) (auto split: list.splits if_splits)

lemma nonempty_lines_free: "l \<in> set (nonempty_lines s) \<Longrightarrow> CHR ''\<newline>'' \<notin> set l \<and> l \<noteq> []"
  using split_on_char_free [of l "CHR ''\<newline>''" s] by (auto simp: nonempty_lines_def)

subsection \<open>The parser on a chunk\<close>

lemma py_slice_butlast: "py_slice xs 0 (- 1) = butlast xs"
proof -
  have "nat (max (int (length xs) - 1) 0) = length xs - 1" by linarith
  then show ?thesis by (simp add: py_slice_def py_clamp_def butlast_conv_take)
qed

lemma py_find_absent: "\<not> sublist sub s \<Longrightarrow> py_find s sub = - 1"
proof (induction s)
  case Nil
  then show ?case by auto
next
  case (Cons c cs)
  then have "\<not> prefix sub (c # cs)" "\<not> sublist sub cs"
    by (auto simp: sublist_Cons_right)
  with Cons.IH show ?case by simp
qed

lemma sublist_py_strip: "sublist (py_strip s) s"
proof -
  have "prefix (py_strip s) (dropWhile py_isspace s)"
    unfolding py_strip_def by (metis suffix_dropWhile suffix_to_prefix rev_rev_ident)
  moreover have "suffix (dropWhile py_isspace s) s" by (rule suffix_dropWhile)
  ultimately show ?thesis
    by (meson prefix_imp_sublist suffix_imp_sublist sublist_order.order_trans)
qed

lemma parse_total: "\<exists>r. parse_single_highlight s = Some r"
proof (cases "length (nonempty_lines s) = 3")
  case False
  then show ?thesis using parse_wrong_count by blast
next
  case True
  then obtain h m c where l: "nonempty_lines s = [h, m, c]"
    by (auto simp: length_Suc_conv numeral_3_eq_3)
  show ?thesis
  proof (cases "re_search h")
    case None
    with l show ?thesis using parse_no_match by blast
  next
    case (Some p)
    then obtain i g where "re_search h = Some (i, g)" by (cases p) auto
    with l show ?thesis using parse_match by blast
  qed
qed

lemma parse_header:
  assumes "nonempty_lines s = [t @ ''('' @ a @ '')'' @ r, m, c]"
    and "CHR ''('' \<notin> set t" and "CHR '')'' \<notin> set a"
  shows "parse_single_highlight s =
     Some (t, a, c,
           ''P'' @ py_slice (hd (split_on ''|'' m))
                     (py_find (py_strip (hd (split_on ''|'' m))) ''page'' + 1) (- 1),
           drop 10 (last (split_on ''|'' m)))"
proof -
  let ?h = "t @ CHR ''('' # a @ CHR '')'' # r"
  have "?h \<in> set (nonempty_lines s)" using assms(1) by simp
  then have "CHR ''\<newline>'' \<notin> set ?h" by (rule nonempty_lines_free [THEN conjunct1])
  then have "CHR ''\<newline>'' \<notin> set a" by simp
  with assms have "re_search ?h = Some (length t, a)" by (simp add: re_search_first)
  with assms(1) parse_match [of s ?h m c "length t" a] show ?thesis by simp
qed

lemma nonempty_lines_blank:
  "nonempty_lines (replicate n (CHR ''\<newline>'') @ s) = nonempty_lines s"
  by (induction n) (simp_all add: nonempty_lines_def)

lemma nonempty_lines_line:
  "l \<noteq> [] \<Longrightarrow> CHR ''\<newline>'' \<notin> set l \<Longrightarrow>
   nonempty_lines (l @ CHR ''\<newline>'' # s) = l # nonempty_lines s"
  by (simp add: nonempty_lines_def split_on_char_hit)

lemma nonempty_lines_single:
  "l \<noteq> [] \<Longrightarrow> CHR ''\<newline>'' \<notin> set l \<Longrightarrow> nonempty_lines l = [l]"
  by (simp add: nonempty_lines_def split_on_char_miss)

lemma nonempty_lines_trailing:
  "l \<noteq> [] \<Longrightarrow> CHR ''\<newline>'' \<notin> set l \<Longrightarrow>
   nonempty_lines (l @ replicate n (CHR ''\<newline>'')) = [l]"
proof (cases n)
  case 0
  then show "l \<noteq> [] \<Longrightarrow> CHR ''\<newline>'' \<notin> set l \<Longrightarrow> ?thesis" by (simp add: nonempty_lines_single)
next
  case (Suc k)
  assume "l \<noteq> []" "CHR ''\<newline>'' \<notin> set l"
  moreover have "nonempty_lines (replicate k (CHR ''\<newline>'')) = []"
    using nonempty_lines_blank [of k "[]"] by (simp add: nonempty_lines_def)
  ultimately show ?thesis using Suc by (simp add: nonempty_lines_line)
qed

lemma nonempty_lines_three:
  assumes "h \<noteq> []" "m \<noteq> []" "c \<noteq> []"
    and "CHR ''\<newline>'' \<notin> set h" "CHR ''\<newline>'' \<notin> set m" "CHR ''\<newline>'' \<notin> set c"
  shows "nonempty_lines (replicate i (CHR ''\<newline>'') @ h @ replicate (Suc j) (CHR ''\<newline>'') @ m
           @ replicate (Suc k) (CHR ''\<newline>'') @ c @ replicate l (CHR ''\<newline>'')) = [h, m, c]"
  using assms
  by (simp add: nonempty_lines_blank nonempty_lines_line nonempty_lines_trailing)

lemma no_group_if_no_open:
  "CHR ''('' \<notin> set h \<Longrightarrow> \<not> (\<exists>t a r. h = t @ ''('' @ a @ '')'' @ r)"
  by auto

lemma parse_cong:
  "nonempty_lines s = nonempty_lines s' \<Longrightarrow> parse_single_highlight s = parse_single_highlight s'"
  by (simp add: parse_single_highlight_def py_split_def nonempty_lines_def)

lemma parse_empty_iff:
  "parse_single_highlight s = Some empty_record \<longleftrightarrow>
     length (nonempty_lines s) \<noteq> 3
     \<or> \<not> (\<exists>t a r. hd (nonempty_lines s) = t @ ''('' @ a @ '')'' @ r)"
proof (cases "length (nonempty_lines s) = 3")
  case False
  then show ?thesis by (simp add: parse_wrong_count)
next
  case True
  then obtain h m c where l: "nonempty_lines s = [h, m, c]"
    by (auto simp: length_Suc_conv numeral_3_eq_3)
  then have "h \<in> set (nonempty_lines s)" by simp
  then have "CHR ''\<newline>'' \<notin> set h" by (rule nonempty_lines_free [THEN conjunct1])
  note iff = re_search_None_iff [OF this]
  show ?thesis
  proof (cases "re_search h")
    case None
    with l iff True show ?thesis using parse_no_match [OF l None] by simp
  next
    case (Some p)
    then obtain i g where ig: "re_search h = Some (i, g)" by (cases p) auto
    have "parse_single_highlight s \<noteq> Some empty_record"
      by (simp add: parse_match [OF l ig] empty_record_def)
    with l iff True ig show ?thesis by simp
  qed
qed

lemma parse_step_eq:
  "parse_single_highlight s = Some (t, a, c, p, d) \<Longrightarrow>
   parse_step bks s =
     Some (if t \<noteq> [] \<and> a \<noteq> []
           then books_append bks (a, t)
                  \<lparr>title = t, author = a, content = c, date = p, page = d\<rparr>
           else bks)"
  by (simp add: parse_step_def Highlight_init_def)

subsection \<open>The aggregation loop\<close>

lemma Highlight_init_total: "\<exists>h. Highlight_init s = Some h"
proof -
  from parse_total [of s] obtain r where "parse_single_highlight s = Some r" by blast
  then show ?thesis by (cases r) (simp add: Highlight_init_def)
qed

lemma Highlight_init_all: "\<exists>hs. map Highlight_init chunks = map Some hs"
proof (induction chunks)
  case Nil
  then show ?case by simp
next
  case (Cons x xs)
  then obtain hs where "map Highlight_init xs = map Some hs" by blast
  moreover from Highlight_init_total [of x] obtain h where "Highlight_init x = Some h" by blast
  ultimately have "map Highlight_init (x # xs) = map Some (h # hs)" by simp
  then show ?case by blast
qed

lemma parse_step_add:
  "Highlight_init x = Some h \<Longrightarrow>
   parse_step bks x = Some (if highlight_valid h then add_highlight bks h else bks)"
  by (simp add: parse_step_def highlight_valid_def add_highlight_def book_key_def)

lemma parse_loop_fold:
  "map Highlight_init chunks = map Some hs \<Longrightarrow>
   parse_loop bks chunks = Some (foldl add_highlight bks (filter highlight_valid hs))"
proof (induction chunks arbitrary: bks hs)
  case Nil
  then show ?case by simp
next
  case (Cons x xs)
  then obtain h hs' where hs: "hs = h # hs'" "Highlight_init x = Some h"
    "map Highlight_init xs = map Some hs'"
    by (cases hs) auto
  from Cons.IH [OF hs(3)] parse_step_add [OF hs(2)] hs(1) show ?case by simp
qed

lemma keys_books_append:
  "map fst (books_append bks k h) =
     (if k \<in> set (map fst bks) then map fst bks else map fst bks @ [k])"
  by (induction bks k h rule: books_append.induct) auto

lemma map_of_books_append:
  "map_of (books_append bks k h) k' =
     (if k' = k then Some (case map_of bks k of None \<Rightarrow> [h] | Some recs \<Rightarrow> recs @ [h])
      else map_of bks k')"
  by (induction bks k h rule: books_append.induct) auto

lemma keys_fold:
  "map fst (foldl add_highlight [] vs) = rev (remdups (rev (map book_key vs)))"
proof (induction vs rule: rev_induct)
  case Nil
  then show ?case by simp
next
  case (snoc v vs)
  have "set (map fst (foldl add_highlight [] vs)) = set (map book_key vs)"
    unfolding snoc.IH by simp
  then show ?case
    using snoc.IH by (simp add: add_highlight_def keys_books_append)
qed

lemma map_of_fold:
  "map_of (foldl add_highlight [] vs) k =
     (if k \<in> book_key ` set vs then Some (filter (\<lambda>h. book_key h = k) vs) else None)"
proof (induction vs rule: rev_induct)
  case Nil
  then show ?case by simp
next
  case (snoc v vs)
  show ?case
  proof (cases "book_key v = k")
    case True
    with snoc.IH show ?thesis
      by (auto simp: add_highlight_def map_of_books_append filter_empty_conv image_iff)
  next
    case False
    with snoc.IH show ?thesis
      by (auto simp: add_highlight_def map_of_books_append)
  qed
qed

lemma distinct_keys_fold: "distinct (map fst (foldl add_highlight [] vs))"
  unfolding keys_fold by simp

lemma parse_highlights_fold:
  "map Highlight_init (split_on HIGHLIGHT_SEPARATOR data) = map Some hs \<Longrightarrow>
   parse_highlights data = Some (foldl add_highlight [] (filter highlight_valid hs))"
  by (simp add: parse_highlights_def py_split_def HIGHLIGHT_SEPARATOR_def parse_loop_fold)

lemma lib_entry:
  assumes "(k, recs) \<in> set (foldl add_highlight [] vs)"
  shows "recs = filter (\<lambda>h. book_key h = k) vs \<and> k \<in> book_key ` set vs"
proof -
  from assms have "map_of (foldl add_highlight [] vs) k = Some recs"
    by (simp add: distinct_keys_fold)
  then show ?thesis by (simp add: map_of_fold split: if_splits)
qed

lemma lib_lookup:
  assumes "v \<in> set vs"
  shows "(book_key v, filter (\<lambda>h. book_key h = book_key v) vs) \<in> set (foldl add_highlight [] vs)"
proof -
  from assms have "map_of (foldl add_highlight [] vs) (book_key v)
      = Some (filter (\<lambda>h. book_key h = book_key v) vs)"
    by (simp add: map_of_fold)
  then show ?thesis by (rule map_of_SomeD)
qed

lemma two_books_records:
  "map Highlight_init (split_on HIGHLIGHT_SEPARATOR two_books_text) =
     map Some
       [\<lparr>title = ''A '', author = ''X'', content = ''c1'', date = ''P'', page = []\<rparr>,
        \<lparr>title = ''B '', author = ''Y'', content = ''c2'', date = ''P'', page = []\<rparr>,
        \<lparr>title = ''A '', author = ''X'', content = ''c3'', date = ''P'', page = []\<rparr>,
        \<lparr>title = [], author = [], content = [], date = [], page = []\<rparr>]"
  unfolding two_books_text_def HIGHLIGHT_SEPARATOR_def Highlight_init_def by code_simp

lemma two_books_library:
  "parse_highlights two_books_text =
     Some [((''X'', ''A ''),
            [\<lparr>title = ''A '', author = ''X'', content = ''c1'', date = ''P'', page = []\<rparr>,
             \<lparr>title = ''A '', author = ''X'', content = ''c3'', date = ''P'', page = []\<rparr>]),
           ((''Y'', ''B ''),
            [\<lparr>title = ''B '', author = ''Y'', content = ''c2'', date = ''P'', page = []\<rparr>])]"
  unfolding two_books_text_def parse_highlights_def HIGHLIGHT_SEPARATOR_def parse_step_def
    Highlight_init_def by code_simp

subsection \<open>Splitting at the separator\<close>

lemma py_join_Cons_head: "py_join sep ((c # x) # xs) = c # py_join sep (x # xs)"
  by (cases xs) simp_all

lemma py_join_split: "sep \<noteq> [] \<Longrightarrow> py_join sep (split_on sep s) = s"
proof (induction sep s rule: split_on.induct)
  case (1 sep)
  then show ?case by simp
next
  case (2 sep c cs)
  show ?case
  proof (cases "prefix sep (c # cs)")
    case True
    then obtain rest where r: "c # cs = sep @ rest" by (auto simp: prefix_def)
    with "2.prems" have d: "drop (length sep - 1) cs = rest"
      by (cases sep) auto
    obtain y ys where y: "split_on sep rest = y # ys"
      using split_on_not_Nil [of sep rest] by (cases "split_on sep rest") auto
    from "2.IH"(1) [OF True "2.prems"] d have "py_join sep (split_on sep rest) = rest" by simp
    with y have j: "py_join sep (y # ys) = rest" by simp
    from True d y have "split_on sep (c # cs) = [] # y # ys" by simp
    then have "py_join sep (split_on sep (c # cs)) = sep @ rest" using j by simp
    then show ?thesis using r by simp
  next
    case False
    obtain y ys where y: "split_on sep cs = y # ys"
      using split_on_not_Nil [of sep cs] by (cases "split_on sep cs") auto
    from "2.IH"(2) [OF False "2.prems"] have "py_join sep (split_on sep cs) = cs" .
    with False y show ?thesis by (simp add: py_join_Cons_head)
  qed
qed

lemma hd_split_on_prefix: "prefix (hd (split_on sep s)) s"
proof (induction sep s rule: split_on.induct)
  case (1 sep)
  then show ?case by simp
next
  case (2 sep c cs)
  show ?case
  proof (cases "prefix sep (c # cs)")
    case True
    then show ?thesis by simp
  next
    case False
    obtain y ys where y: "split_on sep cs = y # ys"
      using split_on_not_Nil [of sep cs] by (cases "split_on sep cs") auto
    with "2.IH"(2) [OF False] False show ?thesis by simp
  qed
qed

lemma chunk_without_sep:
  "sep \<noteq> [] \<Longrightarrow> x \<in> set (split_on sep s) \<Longrightarrow> \<not> sublist sep x"
proof (induction sep s arbitrary: x rule: split_on.induct)
  case (1 sep)
  then show ?case by simp
next
  case (2 sep c cs)
  show ?case
  proof (cases "prefix sep (c # cs)")
    case True
    with "2.prems" have "x = [] \<or> x \<in> set (split_on sep (drop (length sep - 1) cs))" by simp
    then show ?thesis
    proof
      assume "x = []"
      with "2.prems"(1) show ?thesis by simp
    next
      assume "x \<in> set (split_on sep (drop (length sep - 1) cs))"
      then show ?thesis by (rule "2.IH"(1) [OF True "2.prems"(1)])
    qed
  next
    case False
    obtain y ys where y: "split_on sep cs = y # ys"
      using split_on_not_Nil [of sep cs] by (cases "split_on sep cs") auto
    with "2.prems" False have "x = c # y \<or> x \<in> set ys" by simp
    then show ?thesis
    proof
      assume x: "x = c # y"
      have "prefix y cs" using hd_split_on_prefix [of sep cs] y by simp
      then have "prefix (c # y) (c # cs)" by simp
      with False have "\<not> prefix sep (c # y)" using prefix_order.order_trans by blast
      moreover have "\<not> sublist sep y" using "2.IH"(2) [OF False "2.prems"(1), of y] y by simp
      ultimately show ?thesis using x by (simp add: sublist_Cons_right)
    next
      assume "x \<in> set ys"
      with y show ?thesis using "2.IH"(2) [OF False "2.prems"(1), of x] by simp
    qed
  qed
qed

lemma split_on_leftmost:
  "sep \<noteq> [] \<Longrightarrow> \<not> sublist sep (a @ butlast sep) \<Longrightarrow>
   split_on sep (a @ sep @ b) = a # split_on sep b"
proof (induction a)
  case Nil
  then obtain s ss where s: "sep = s # ss" by (cases sep) auto
  then show ?case by simp
next
  case (Cons c a)
  have np: "\<not> prefix sep ((c # a) @ sep @ b)"
  proof
    assume p: "prefix sep ((c # a) @ sep @ b)"
    have "prefix ((c # a) @ butlast sep) ((c # a) @ sep @ b)"
      using Cons.prems(1) by (metis append_butlast_last_id append.assoc prefix_def same_prefix_prefix prefixI)
    moreover have "length sep \<le> length ((c # a) @ butlast sep)" by simp
    ultimately have "prefix sep ((c # a) @ butlast sep)"
      using p prefix_length_prefix by blast
    with Cons.prems(2) show False by (auto dest: prefix_imp_sublist)
  qed
  have "\<not> sublist sep (a @ butlast sep)"
    using Cons.prems(2) by (auto simp: sublist_Cons_right)
  from Cons.IH [OF Cons.prems(1) this] np show ?case by simp
qed

lemma no_double_newline:
  "xs = [] \<or> last xs \<noteq> CHR ''\<newline>'' \<Longrightarrow> \<not> suffix ''\<newline>\<newline>'' (xs @ ''\<newline>'')"
proof
  assume a: "xs = [] \<or> last xs \<noteq> CHR ''\<newline>''" and "suffix ''\<newline>\<newline>'' (xs @ ''\<newline>'')"
  then obtain zs where "xs @ ''\<newline>'' = zs @ ''\<newline>\<newline>''" by (auto simp: suffix_def)
  then have "xs = zs @ ''\<newline>''" by (metis append.assoc append_Cons append_Nil butlast_snoc)
  with a show False by simp
qed

section \<open>The sample scenario\<close>

text \<open>
  C1 (as amended). For the three-line sample chunk, \<open>parse_single_highlight\<close> returns
  the title \<open>"Sample Book "\<close> (the text before the opening parenthesis, with its trailing
  space), the author \<open>"Jane Doe"\<close>, the passage \<open>"This is the highlighted text."\<close>, the
  location \<open>"Page 12"\<close> (\<open>"P"\<close> followed by the first segment from the character after
  the \<open>p\<close> of \<open>page\<close> to its next-to-last character) and the timestamp
  \<open>"Monday, May 1, 2023 10:00:00 AM"\<close>; title and author are non-empty, so the record
  passes the test of the aggregation.
\<close>

theorem sample_chunk_parse:
  "parse_single_highlight sample_chunk =
     Some (''Sample Book '', ''Jane Doe'', ''This is the highlighted text.'', ''Page 12'',
           ''Monday, May 1, 2023 10:00:00 AM'')
   \<and> map_option title (Highlight_init sample_chunk) = Some ''Sample Book ''
   \<and> map_option author (Highlight_init sample_chunk) = Some ''Jane Doe''"
  unfolding sample_chunk_def Highlight_init_def by code_simp

text \<open>
  The record of the sample chunk is not the one with title \<open>"Sample Book"\<close> and location
  \<open>"P12"\<close>.
\<close>

theorem sample_chunk_parse_counterexample:
  "parse_single_highlight sample_chunk \<noteq>
     Some (''Sample Book'', ''Jane Doe'', ''This is the highlighted text.'', ''P12'',
           ''Monday, May 1, 2023 10:00:00 AM'')"
  unfolding sample_chunk_def by code_simp

section \<open>Title and author\<close>

text \<open>
  C2 (as amended). The author is the FIRST parenthesized group of the header line: when
  the header is \<open>t (a) rest\<close> with no opening parenthesis in \<open>t\<close> and no closing
  parenthesis in \<open>a\<close>, the record has the title \<open>t\<close> (untrimmed) and the author \<open>a\<close>,
  whatever parenthesized groups follow in \<open>rest\<close>.
\<close>

theorem first_group_is_author:
  assumes "nonempty_lines chunk = [t @ ''('' @ a @ '')'' @ rest, m, c]"
    and "CHR ''('' \<notin> set t" and "CHR '')'' \<notin> set a"
  shows "\<exists>p d. parse_single_highlight chunk = Some (t, a, c, p, d)"
  using parse_header [OF assms] by blast

theorem first_group_is_author_witness:
  "nonempty_lines ''Title (Part 1) (Author)\<newline>m\<newline>c''
     = [''Title '' @ ''('' @ ''Part 1'' @ '')'' @ '' (Author)'', ''m'', ''c'']
   \<and> CHR ''('' \<notin> set ''Title '' \<and> CHR '')'' \<notin> set ''Part 1''
   \<and> (\<exists>p d. parse_single_highlight ''Title (Part 1) (Author)\<newline>m\<newline>c''
              = Some (''Title '', ''Part 1'', ''c'', p, d))"
proof -
  have l: "nonempty_lines ''Title (Part 1) (Author)\<newline>m\<newline>c''
     = [''Title '' @ ''('' @ ''Part 1'' @ '')'' @ '' (Author)'', ''m'', ''c'']"
    by (simp add: nonempty_lines_def)
  have t: "CHR ''('' \<notin> set ''Title ''" and a: "CHR '')'' \<notin> set ''Part 1''" by simp_all
  from first_group_is_author [OF l t a] l t a show ?thesis by blast
qed

text \<open>
  For the header \<open>Title (Part 1) (Author)\<close> the author is \<open>Part 1\<close>, not the last group
  \<open>Author\<close>, and the title is \<open>"Title "\<close>.
\<close>

theorem last_group_counterexample:
  "map_option author (Highlight_init ''Title (Part 1) (Author)\<newline>m\<newline>c'') = Some ''Part 1''
   \<and> map_option author (Highlight_init ''Title (Part 1) (Author)\<newline>m\<newline>c'') \<noteq> Some ''Author''
   \<and> map_option title (Highlight_init ''Title (Part 1) (Author)\<newline>m\<newline>c'') = Some ''Title ''"
  unfolding Highlight_init_def by code_simp

section \<open>Failure policy\<close>

text \<open>
  C3 (as amended). \<open>parse_single_highlight\<close> returns on every input (no subscript
  raises). A chunk whose number of non-empty lines is not 3, and a chunk of 3 lines
  whose header has no parenthesized group, yield the all-empty record. A first
  pipe-segment without the substring \<open>page\<close> is not an anomaly: \<open>find\<close> returns \<open>-1\<close>,
  the slice starts at index 0, and the record is returned with the location \<open>"P"\<close>
  followed by the first segment without its last character.
\<close>

theorem parse_anomalies:
  "(\<exists>rec. parse_single_highlight s = Some rec)
   \<and> (length (nonempty_lines s) \<noteq> 3 \<longrightarrow> parse_single_highlight s = Some empty_record)
   \<and> (nonempty_lines s = [h, m, c] \<and> \<not> (\<exists>t a r. h = t @ ''('' @ a @ '')'' @ r)
        \<longrightarrow> parse_single_highlight s = Some empty_record)
   \<and> (nonempty_lines s = [t @ ''('' @ a @ '')'' @ r, m, c]
        \<and> CHR ''('' \<notin> set t \<and> CHR '')'' \<notin> set a
        \<and> \<not> sublist ''page'' (hd (split_on ''|'' m))
        \<longrightarrow> parse_single_highlight s =
              Some (t, a, c, ''P'' @ butlast (hd (split_on ''|'' m)),
                    drop 10 (last (split_on ''|'' m))))"
proof (intro conjI impI)
  show "\<exists>rec. parse_single_highlight s = Some rec" by (rule parse_total)
next
  assume "length (nonempty_lines s) \<noteq> 3"
  then show "parse_single_highlight s = Some empty_record" by (rule parse_wrong_count)
next
  assume a: "nonempty_lines s = [h, m, c] \<and> \<not> (\<exists>t a r. h = t @ ''('' @ a @ '')'' @ r)"
  then have "h \<in> set (nonempty_lines s)" by simp
  then have "CHR ''\<newline>'' \<notin> set h" by (rule nonempty_lines_free [THEN conjunct1])
  from re_search_None_iff [OF this] a have "re_search h = None" by blast
  with a show "parse_single_highlight s = Some empty_record" using parse_no_match by blast
next
  assume a: "nonempty_lines s = [t @ ''('' @ a @ '')'' @ r, m, c]
        \<and> CHR ''('' \<notin> set t \<and> CHR '')'' \<notin> set a
        \<and> \<not> sublist ''page'' (hd (split_on ''|'' m))"
  have "\<not> sublist ''page'' (py_strip (hd (split_on ''|'' m)))"
    using a sublist_py_strip sublist_order.order_trans by blast
  then have "py_find (py_strip (hd (split_on ''|'' m))) ''page'' = - 1"
    by (rule py_find_absent)
  moreover have "parse_single_highlight s =
     Some (t, a, c,
           ''P'' @ py_slice (hd (split_on ''|'' m))
                     (py_find (py_strip (hd (split_on ''|'' m))) ''page'' + 1) (- 1),
           drop 10 (last (split_on ''|'' m)))"
    using a by (intro parse_header) simp_all
  ultimately show "parse_single_highlight s =
              Some (t, a, c, ''P'' @ butlast (hd (split_on ''|'' m)),
                    drop 10 (last (split_on ''|'' m)))"
    by (simp add: py_slice_butlast)
qed

theorem parse_anomalies_witness:
  "length (nonempty_lines ''only one line'') \<noteq> 3
   \<and> parse_single_highlight ''only one line'' = Some empty_record
   \<and> nonempty_lines ''No author here\<newline>meta\<newline>text'' = [''No author here'', ''meta'', ''text'']
   \<and> \<not> (\<exists>t a r. ''No author here'' = t @ ''('' @ a @ '')'' @ r)
   \<and> parse_single_highlight ''No author here\<newline>meta\<newline>text'' = Some empty_record
   \<and> nonempty_lines ''T (A)\<newline>- Your Highlight on Location 5 | Added on Monday\<newline>c''
       = [''T '' @ ''('' @ ''A'' @ '')'' @ [], ''- Your Highlight on Location 5 | Added on Monday'', ''c'']
   \<and> \<not> sublist ''page'' (hd (split_on ''|'' ''- Your Highlight on Location 5 | Added on Monday''))
   \<and> parse_single_highlight ''T (A)\<newline>- Your Highlight on Location 5 | Added on Monday\<newline>c''
       = Some (''T '', ''A'', ''c'', ''P- Your Highlight on Location 5'', ''Monday'')"
proof -
  have a1: "length (nonempty_lines ''only one line'') \<noteq> 3"
    by (simp add: nonempty_lines_def)
  have b1: "nonempty_lines ''No author here\<newline>meta\<newline>text'' = [''No author here'', ''meta'', ''text'']"
    by (simp add: nonempty_lines_def)
  have b2: "\<not> (\<exists>t a r. ''No author here'' = t @ ''('' @ a @ '')'' @ r)"
    by (rule no_group_if_no_open) simp
  have c1: "nonempty_lines ''T (A)\<newline>- Your Highlight on Location 5 | Added on Monday\<newline>c''
       = [''T '' @ ''('' @ ''A'' @ '')'' @ [], ''- Your Highlight on Location 5 | Added on Monday'', ''c'']"
    by (simp add: nonempty_lines_def)
  have c2: "CHR ''('' \<notin> set ''T ''" "CHR '')'' \<notin> set ''A''" by simp_all
  have c3: "hd (split_on ''|'' ''- Your Highlight on Location 5 | Added on Monday'')
              = ''- Your Highlight on Location 5 ''"
    and c4: "last (split_on ''|'' ''- Your Highlight on Location 5 | Added on Monday'')
              = '' Added on Monday''"
    by simp_all
  have c5: "\<not> sublist ''page'' ''- Your Highlight on Location 5 ''"
    by (simp add: sublist_Cons_right)
  from parse_anomalies [where s = "''only one line''"] a1
  have r1: "parse_single_highlight ''only one line'' = Some empty_record" by blast
  from parse_anomalies [where s = "''No author here\<newline>meta\<newline>text''"
        and h = "''No author here''" and m = "''meta''" and c = "''text''"]
    b1 b2
  have r2: "parse_single_highlight ''No author here\<newline>meta\<newline>text'' = Some empty_record" by blast
  from parse_anomalies [where s = "''T (A)\<newline>- Your Highlight on Location 5 | Added on Monday\<newline>c''"
        and t = "''T ''" and a = "''A''" and r = "[]"
        and m = "''- Your Highlight on Location 5 | Added on Monday''" and c = "''c''"]
    c1 c2 c3 c5
  have "parse_single_highlight ''T (A)\<newline>- Your Highlight on Location 5 | Added on Monday\<newline>c''
       = Some (''T '', ''A'', ''c'',
               ''P'' @ butlast (hd (split_on ''|'' ''- Your Highlight on Location 5 | Added on Monday'')),
               drop 10 (last (split_on ''|'' ''- Your Highlight on Location 5 | Added on Monday'')))"
    by presburger
  then have r3: "parse_single_highlight ''T (A)\<newline>- Your Highlight on Location 5 | Added on Monday\<newline>c''
       = Some (''T '', ''A'', ''c'', ''P- Your Highlight on Location 5'', ''Monday'')"
    unfolding c3 c4 by simp
  from a1 r1 b1 b2 r2 c1 c3 c5 r3 show ?thesis by presburger
qed

text \<open>
  A chunk whose first pipe-segment has no \<open>page\<close> does not yield the all-empty
  record.
\<close>

theorem missing_page_counterexample:
  "py_find (py_strip ''- Your Highlight on Location 5 '') ''page'' = - 1
   \<and> parse_single_highlight ''T (A)\<newline>- Your Highlight on Location 5 | Added on Monday\<newline>c''
       \<noteq> Some ([], [], [], [], [])"
  by code_simp

section \<open>Line filtering\<close>

text \<open>
  C5 (as amended). Only the lines that are the empty string are discarded. The all-empty
  record is returned exactly when the number of remaining lines is not 3 or the first of
  them has no parenthesized group. Three non-empty lines separated and surrounded by
  any number of empty lines parse as the three lines alone; a further line that is not
  empty, such as a whitespace-only line, makes the count 4 and the record all-empty.
\<close>

theorem only_empty_lines_discarded:
  "(parse_single_highlight s = Some empty_record \<longleftrightarrow>
      length (nonempty_lines s) \<noteq> 3
      \<or> \<not> (\<exists>t a r. hd (nonempty_lines s) = t @ ''('' @ a @ '')'' @ r))
   \<and> (h \<noteq> [] \<and> m \<noteq> [] \<and> c \<noteq> []
        \<and> CHR ''\<newline>'' \<notin> set h \<and> CHR ''\<newline>'' \<notin> set m \<and> CHR ''\<newline>'' \<notin> set c
        \<longrightarrow> parse_single_highlight
              (replicate i (CHR ''\<newline>'') @ h @ replicate (Suc j) (CHR ''\<newline>'') @ m
                 @ replicate (Suc k) (CHR ''\<newline>'') @ c @ replicate l (CHR ''\<newline>''))
            = parse_single_highlight (h @ ''\<newline>'' @ m @ ''\<newline>'' @ c))
   \<and> (h \<noteq> [] \<and> m \<noteq> [] \<and> c \<noteq> [] \<and> w \<noteq> []
        \<and> CHR ''\<newline>'' \<notin> set h \<and> CHR ''\<newline>'' \<notin> set m \<and> CHR ''\<newline>'' \<notin> set c
        \<and> CHR ''\<newline>'' \<notin> set w
        \<longrightarrow> parse_single_highlight (h @ ''\<newline>'' @ w @ ''\<newline>'' @ m @ ''\<newline>'' @ c)
            = Some empty_record)"
proof (intro conjI impI)
  show "parse_single_highlight s = Some empty_record \<longleftrightarrow>
      length (nonempty_lines s) \<noteq> 3
      \<or> \<not> (\<exists>t a r. hd (nonempty_lines s) = t @ ''('' @ a @ '')'' @ r)"
    by (rule parse_empty_iff)
next
  assume a: "h \<noteq> [] \<and> m \<noteq> [] \<and> c \<noteq> []
        \<and> CHR ''\<newline>'' \<notin> set h \<and> CHR ''\<newline>'' \<notin> set m \<and> CHR ''\<newline>'' \<notin> set c"
  then have "nonempty_lines (replicate i (CHR ''\<newline>'') @ h @ replicate (Suc j) (CHR ''\<newline>'') @ m
                 @ replicate (Suc k) (CHR ''\<newline>'') @ c @ replicate l (CHR ''\<newline>'')) = [h, m, c]"
    by (intro nonempty_lines_three) simp_all
  moreover from a have "nonempty_lines (h @ ''\<newline>'' @ m @ ''\<newline>'' @ c) = [h, m, c]"
    by (simp add: nonempty_lines_line nonempty_lines_single)
  ultimately show "parse_single_highlight
              (replicate i (CHR ''\<newline>'') @ h @ replicate (Suc j) (CHR ''\<newline>'') @ m
                 @ replicate (Suc k) (CHR ''\<newline>'') @ c @ replicate l (CHR ''\<newline>''))
            = parse_single_highlight (h @ ''\<newline>'' @ m @ ''\<newline>'' @ c)"
    by (intro parse_cong) simp
next
  assume a: "h \<noteq> [] \<and> m \<noteq> [] \<and> c \<noteq> [] \<and> w \<noteq> []
        \<and> CHR ''\<newline>'' \<notin> set h \<and> CHR ''\<newline>'' \<notin> set m \<and> CHR ''\<newline>'' \<notin> set c
        \<and> CHR ''\<newline>'' \<notin> set w"
  then have "nonempty_lines (h @ ''\<newline>'' @ w @ ''\<newline>'' @ m @ ''\<newline>'' @ c) = [h, w, m, c]"
    by (simp add: nonempty_lines_line nonempty_lines_single)
  then have "length (nonempty_lines (h @ ''\<newline>'' @ w @ ''\<newline>'' @ m @ ''\<newline>'' @ c)) \<noteq> 3"
    by simp
  then show "parse_single_highlight (h @ ''\<newline>'' @ w @ ''\<newline>'' @ m @ ''\<newline>'' @ c)
            = Some empty_record"
    by (rule parse_wrong_count)
qed

theorem only_empty_lines_discarded_witness:
  "parse_single_highlight ''\<newline>T (A)\<newline>\<newline>\<newline>m\<newline>c\<newline>'' = parse_single_highlight ''T (A)\<newline>m\<newline>c''
   \<and> parse_single_highlight ''T (A)\<newline>m\<newline>c'' \<noteq> Some empty_record
   \<and> parse_single_highlight ''T (A)\<newline>  \<newline>m\<newline>c'' = Some empty_record"
proof -
  have e: "replicate (Suc 0) (CHR ''\<newline>'') @ ''T (A)'' @ replicate (Suc (Suc (Suc 0))) (CHR ''\<newline>'') @ ''m''
             @ replicate (Suc 0) (CHR ''\<newline>'') @ ''c'' @ replicate (Suc 0) (CHR ''\<newline>'')
           = ''\<newline>T (A)\<newline>\<newline>\<newline>m\<newline>c\<newline>''"
    by simp
  have n: "''T (A)'' \<noteq> [] \<and> ''m'' \<noteq> [] \<and> ''c'' \<noteq> []
        \<and> CHR ''\<newline>'' \<notin> set ''T (A)'' \<and> CHR ''\<newline>'' \<notin> set ''m'' \<and> CHR ''\<newline>'' \<notin> set ''c''"
    by simp
  have w: "''  '' \<noteq> [] \<and> CHR ''\<newline>'' \<notin> set ''  ''" by simp
  have l: "nonempty_lines ''T (A)\<newline>m\<newline>c'' = [''T (A)'', ''m'', ''c'']"
    by (simp add: nonempty_lines_def)
  have g: "hd (nonempty_lines ''T (A)\<newline>m\<newline>c'') = ''T '' @ ''('' @ ''A'' @ '')'' @ []"
    unfolding l by simp
  note inst = only_empty_lines_discarded [where s = "''T (A)\<newline>m\<newline>c''" and h = "''T (A)''"
      and m = "''m''" and c = "''c''" and w = "''  ''" and i = "Suc 0" and j = "Suc (Suc 0)"
      and k = 0 and l = "Suc 0"]
  from inst n have "parse_single_highlight
      (replicate (Suc 0) (CHR ''\<newline>'') @ ''T (A)'' @ replicate (Suc (Suc (Suc 0))) (CHR ''\<newline>'') @ ''m''
         @ replicate (Suc 0) (CHR ''\<newline>'') @ ''c'' @ replicate (Suc 0) (CHR ''\<newline>''))
      = parse_single_highlight (''T (A)'' @ ''\<newline>'' @ ''m'' @ ''\<newline>'' @ ''c'')"
    by blast
  then have r1: "parse_single_highlight ''\<newline>T (A)\<newline>\<newline>\<newline>m\<newline>c\<newline>''
      = parse_single_highlight ''T (A)\<newline>m\<newline>c''"
    unfolding e by simp
  from inst l g have r2: "parse_single_highlight ''T (A)\<newline>m\<newline>c'' \<noteq> Some empty_record"
    by (metis length_Cons list.size(3) numeral_3_eq_3)
  from inst n w have "parse_single_highlight (''T (A)'' @ ''\<newline>'' @ ''  '' @ ''\<newline>'' @ ''m'' @ ''\<newline>'' @ ''c'')
            = Some empty_record"
    by blast
  then have r3: "parse_single_highlight ''T (A)\<newline>  \<newline>m\<newline>c'' = Some empty_record" by simp
  from r1 r2 r3 show ?thesis by blast
qed

text \<open>
  Three lines of text and one line of two spaces: the record is all-empty.
\<close>

theorem whitespace_line_counterexample:
  "parse_single_highlight
     ''Sample Book (Jane Doe)\<newline>  \<newline>- Your Highlight on page 12 | Added on Monday\<newline>Text''
   = Some ([], [], [], [], [])"
  by code_simp

section \<open>Short last segment\<close>

text \<open>
  C10 (as amended). For a chunk of 3 non-empty lines whose header is \<open>t (a) r\<close> (first
  group) and whose last pipe-segment of the metadata line has at most 10 characters,
  the returned record has the empty timestamp (fifth component, stored in the attribute
  \<open>page\<close> of the object). The loop body appends it to the books exactly when \<open>t\<close> and
  \<open>a\<close> are both non-empty, and leaves the books unchanged otherwise.
\<close>

theorem short_last_segment:
  assumes "nonempty_lines chunk = [t @ ''('' @ a @ '')'' @ r, m, c]"
    and "CHR ''('' \<notin> set t" and "CHR '')'' \<notin> set a"
    and "length (last (split_on ''|'' m)) \<le> 10"
  shows "\<exists>p. parse_single_highlight chunk = Some (t, a, c, p, [])
     \<and> parse_step bks chunk =
         Some (if t \<noteq> [] \<and> a \<noteq> []
               then books_append bks (a, t)
                      \<lparr>title = t, author = a, content = c, date = p, page = []\<rparr>
               else bks)"
proof -
  from parse_header [OF assms(1-3)] assms(4)
  obtain p where p: "parse_single_highlight chunk = Some (t, a, c, p, [])" by simp
  from parse_step_eq [OF p] p show ?thesis by blast
qed

theorem short_last_segment_witness:
  "nonempty_lines ''Sample Book (Jane Doe)\<newline>- Your Highlight on page 12 | Added on\<newline>Text''
     = [''Sample Book '' @ ''('' @ ''Jane Doe'' @ '')'' @ [],
        ''- Your Highlight on page 12 | Added on'', ''Text'']
   \<and> length (last (split_on ''|'' ''- Your Highlight on page 12 | Added on'')) \<le> 10
   \<and> (\<exists>p. parse_single_highlight
              ''Sample Book (Jane Doe)\<newline>- Your Highlight on page 12 | Added on\<newline>Text''
            = Some (''Sample Book '', ''Jane Doe'', ''Text'', p, [])
          \<and> parse_step []
              ''Sample Book (Jane Doe)\<newline>- Your Highlight on page 12 | Added on\<newline>Text''
            = Some [((''Jane Doe'', ''Sample Book ''),
                     [\<lparr>title = ''Sample Book '', author = ''Jane Doe'', content = ''Text'',
                        date = p, page = []\<rparr>])])"
proof -
  have l: "nonempty_lines ''Sample Book (Jane Doe)\<newline>- Your Highlight on page 12 | Added on\<newline>Text''
     = [''Sample Book '' @ ''('' @ ''Jane Doe'' @ '')'' @ [],
        ''- Your Highlight on page 12 | Added on'', ''Text'']"
    by (simp add: nonempty_lines_def)
  have t: "CHR ''('' \<notin> set ''Sample Book ''" and a: "CHR '')'' \<notin> set ''Jane Doe''"
    by simp_all
  have d: "length (last (split_on ''|'' ''- Your Highlight on page 12 | Added on'')) \<le> 10"
    by simp
  from short_last_segment [OF l t a d, of "[]"] l d show ?thesis by simp
qed

text \<open>
  With the header \<open>Sample Book ()\<close> the author is empty and the record is not
  aggregated.
\<close>

theorem short_last_segment_counterexample:
  "nonempty_lines ''Sample Book ()\<newline>- Note\<newline>Text'' = [''Sample Book ()'', ''- Note'', ''Text'']
   \<and> re_search ''Sample Book ()'' = Some (12, [])
   \<and> length (last (split_on ''|'' ''- Note'')) \<le> 10
   \<and> parse_step [] ''Sample Book ()\<newline>- Note\<newline>Text'' = Some []"
  unfolding nonempty_lines_def parse_step_def Highlight_init_def by code_simp

section \<open>Aggregation\<close>

text \<open>
  C7. For every input text the aggregation returns a library. With \<open>hs\<close> the records of
  the chunks in input order, the keys of the library are the keys of the valid records
  in the order of their first occurrence (\<open>rev (remdups (rev ks))\<close> keeps the first
  occurrence of each element of \<open>ks\<close>), and the sequence of a key is the list of the
  valid records with that key, in input order.
\<close>

theorem aggregation_order:
  "\<exists>hs lib. map Highlight_init (split_on HIGHLIGHT_SEPARATOR data) = map Some hs
     \<and> parse_highlights data = Some lib
     \<and> map fst lib = rev (remdups (rev (map book_key (filter highlight_valid hs))))
     \<and> (\<forall>k. map_of lib k =
           (if k \<in> book_key ` set (filter highlight_valid hs)
            then Some (filter (\<lambda>h. book_key h = k) (filter highlight_valid hs))
            else None))"
proof -
  from Highlight_init_all obtain hs
    where hs: "map Highlight_init (split_on HIGHLIGHT_SEPARATOR data) = map Some hs" by blast
  let ?lib = "foldl add_highlight [] (filter highlight_valid hs)"
  have "parse_highlights data = Some ?lib" by (rule parse_highlights_fold [OF hs])
  moreover have "map fst ?lib = rev (remdups (rev (map book_key (filter highlight_valid hs))))"
    by (rule keys_fold)
  moreover have "\<forall>k. map_of ?lib k =
           (if k \<in> book_key ` set (filter highlight_valid hs)
            then Some (filter (\<lambda>h. book_key h = k) (filter highlight_valid hs))
            else None)"
    using map_of_fold by blast
  ultimately show ?thesis using hs by blast
qed

theorem aggregation_order_witness:
  "\<exists>lib. parse_highlights two_books_text = Some lib
     \<and> map fst lib = [(''X'', ''A ''), (''Y'', ''B '')]
     \<and> map_of lib (''X'', ''A '') =
         Some [\<lparr>title = ''A '', author = ''X'', content = ''c1'', date = ''P'', page = []\<rparr>,
               \<lparr>title = ''A '', author = ''X'', content = ''c3'', date = ''P'', page = []\<rparr>]
     \<and> map_of lib (''Y'', ''B '') =
         Some [\<lparr>title = ''B '', author = ''Y'', content = ''c2'', date = ''P'', page = []\<rparr>]"
proof -
  let ?L = "[\<lparr>title = ''A '', author = ''X'', content = ''c1'', date = ''P'', page = []\<rparr>,
        \<lparr>title = ''B '', author = ''Y'', content = ''c2'', date = ''P'', page = []\<rparr>,
        \<lparr>title = ''A '', author = ''X'', content = ''c3'', date = ''P'', page = []\<rparr>,
        \<lparr>title = [], author = [], content = [], date = [], page = []\<rparr>]"
  from aggregation_order [of two_books_text] obtain hs where
    "\<exists>lib. map Highlight_init (split_on HIGHLIGHT_SEPARATOR two_books_text) = map Some hs
     \<and> parse_highlights two_books_text = Some lib
     \<and> map fst lib = rev (remdups (rev (map book_key (filter highlight_valid hs))))
     \<and> (\<forall>k. map_of lib k =
           (if k \<in> book_key ` set (filter highlight_valid hs)
            then Some (filter (\<lambda>h. book_key h = k) (filter highlight_valid hs))
            else None))" ..
  then obtain lib where all:
    "map Highlight_init (split_on HIGHLIGHT_SEPARATOR two_books_text) = map Some hs
     \<and> parse_highlights two_books_text = Some lib
     \<and> map fst lib = rev (remdups (rev (map book_key (filter highlight_valid hs))))
     \<and> (\<forall>k. map_of lib k =
           (if k \<in> book_key ` set (filter highlight_valid hs)
            then Some (filter (\<lambda>h. book_key h = k) (filter highlight_valid hs))
            else None))" ..
  note hs = all [THEN conjunct1]
  note lib = all [THEN conjunct2, THEN conjunct1]
  note keys = all [THEN conjunct2, THEN conjunct2, THEN conjunct1]
  note recs = all [THEN conjunct2, THEN conjunct2, THEN conjunct2, THEN spec]
  have "map Some hs = map Some ?L" using hs by (simp only: two_books_records)
  then have hs': "hs = ?L" by (rule map_injective) (rule inj_Some)
  have v: "filter highlight_valid ?L =
       [\<lparr>title = ''A '', author = ''X'', content = ''c1'', date = ''P'', page = []\<rparr>,
        \<lparr>title = ''B '', author = ''Y'', content = ''c2'', date = ''P'', page = []\<rparr>,
        \<lparr>title = ''A '', author = ''X'', content = ''c3'', date = ''P'', page = []\<rparr>]"
    by (simp add: highlight_valid_def)
  have k: "map fst lib = [(''X'', ''A ''), (''Y'', ''B '')]"
    unfolding keys hs' v by (simp add: book_key_def)
  have a: "map_of lib (''X'', ''A '') =
         Some [\<lparr>title = ''A '', author = ''X'', content = ''c1'', date = ''P'', page = []\<rparr>,
               \<lparr>title = ''A '', author = ''X'', content = ''c3'', date = ''P'', page = []\<rparr>]"
    unfolding recs [of "(''X'', ''A '')"] hs' v by (simp add: book_key_def)
  have b: "map_of lib (''Y'', ''B '') =
         Some [\<lparr>title = ''B '', author = ''Y'', content = ''c2'', date = ''P'', page = []\<rparr>]"
    unfolding recs [of "(''Y'', ''B '')"] hs' v by (simp add: book_key_def)
  from lib k a b show ?thesis by (intro exI [of _ lib] conjI)
qed

text \<open>
  C6 (as amended). Two valid entries of the input are in the sequence of one and the same
  key of the library if and only if their pairs \<open>(author, title)\<close>, as extracted and
  without any trimming, are equal.
\<close>

theorem same_book_iff:
  assumes "map Highlight_init (split_on HIGHLIGHT_SEPARATOR data) = map Some hs"
    and "parse_highlights data = Some lib"
    and "h1 \<in> set hs" and "h2 \<in> set hs"
    and "highlight_valid h1" and "highlight_valid h2"
  shows "(\<exists>k recs. (k, recs) \<in> set lib \<and> h1 \<in> set recs \<and> h2 \<in> set recs)
         \<longleftrightarrow> (author h1, title h1) = (author h2, title h2)"
proof -
  let ?vs = "filter highlight_valid hs"
  from parse_highlights_fold [OF assms(1)] assms(2)
  have lib: "lib = foldl add_highlight [] ?vs" by simp
  have v: "h1 \<in> set ?vs" "h2 \<in> set ?vs" using assms(3-6) by simp_all
  show ?thesis
  proof
    assume "\<exists>k recs. (k, recs) \<in> set lib \<and> h1 \<in> set recs \<and> h2 \<in> set recs"
    then obtain k recs where e: "(k, recs) \<in> set lib" "h1 \<in> set recs" "h2 \<in> set recs"
      by blast
    from lib_entry [of k recs ?vs] e(1) lib
    have "recs = filter (\<lambda>h. book_key h = k) ?vs" by simp
    with e(2,3) have "book_key h1 = k" "book_key h2 = k" by simp_all
    then show "(author h1, title h1) = (author h2, title h2)" by (simp add: book_key_def)
  next
    assume "(author h1, title h1) = (author h2, title h2)"
    then have k: "book_key h2 = book_key h1" by (simp add: book_key_def)
    let ?recs = "filter (\<lambda>h. book_key h = book_key h1) ?vs"
    from lib_lookup [OF v(1)] lib have "(book_key h1, ?recs) \<in> set lib" by simp
    moreover from v k have "h1 \<in> set ?recs" "h2 \<in> set ?recs" by simp_all
    ultimately show "\<exists>k recs. (k, recs) \<in> set lib \<and> h1 \<in> set recs \<and> h2 \<in> set recs"
      by blast
  qed
qed

theorem same_book_iff_witness:
  "(\<exists>k recs. (k, recs) \<in> set
        [((''X'', ''A ''),
            [\<lparr>title = ''A '', author = ''X'', content = ''c1'', date = ''P'', page = []\<rparr>,
             \<lparr>title = ''A '', author = ''X'', content = ''c3'', date = ''P'', page = []\<rparr>]),
           ((''Y'', ''B ''),
            [\<lparr>title = ''B '', author = ''Y'', content = ''c2'', date = ''P'', page = []\<rparr>])]
      \<and> \<lparr>title = ''A '', author = ''X'', content = ''c1'', date = ''P'', page = []\<rparr> \<in> set recs
      \<and> \<lparr>title = ''A '', author = ''X'', content = ''c3'', date = ''P'', page = []\<rparr> \<in> set recs)
   \<and> \<not> (\<exists>k recs. (k, recs) \<in> set
        [((''X'', ''A ''),
            [\<lparr>title = ''A '', author = ''X'', content = ''c1'', date = ''P'', page = []\<rparr>,
             \<lparr>title = ''A '', author = ''X'', content = ''c3'', date = ''P'', page = []\<rparr>]),
           ((''Y'', ''B ''),
            [\<lparr>title = ''B '', author = ''Y'', content = ''c2'', date = ''P'', page = []\<rparr>])]
      \<and> \<lparr>title = ''A '', author = ''X'', content = ''c1'', date = ''P'', page = []\<rparr> \<in> set recs
      \<and> \<lparr>title = ''B '', author = ''Y'', content = ''c2'', date = ''P'', page = []\<rparr> \<in> set recs)"
proof -
  let ?h1 = "\<lparr>title = ''A '', author = ''X'', content = ''c1'', date = ''P'', page = []\<rparr>"
  let ?h2 = "\<lparr>title = ''B '', author = ''Y'', content = ''c2'', date = ''P'', page = []\<rparr>"
  let ?h3 = "\<lparr>title = ''A '', author = ''X'', content = ''c3'', date = ''P'', page = []\<rparr>"
  let ?hs = "[?h1, ?h2, ?h3, \<lparr>title = [], author = [], content = [], date = [], page = []\<rparr>]"
  have m: "?h1 \<in> set ?hs" "?h2 \<in> set ?hs" "?h3 \<in> set ?hs" by simp_all
  have v: "highlight_valid ?h1" "highlight_valid ?h2" "highlight_valid ?h3"
    by (simp_all add: highlight_valid_def)
  from same_book_iff [OF two_books_records two_books_library m(1) m(3) v(1) v(3)]
  have a: "\<exists>k recs. (k, recs) \<in> set
        [((''X'', ''A ''), [?h1, ?h3]), ((''Y'', ''B ''), [?h2])]
      \<and> ?h1 \<in> set recs \<and> ?h3 \<in> set recs"
    by simp
  from same_book_iff [OF two_books_records two_books_library m(1) m(2) v(1) v(2)]
  have b: "\<not> (\<exists>k recs. (k, recs) \<in> set
        [((''X'', ''A ''), [?h1, ?h3]), ((''Y'', ''B ''), [?h2])]
      \<and> ?h1 \<in> set recs \<and> ?h2 \<in> set recs)"
    by simp
  from a b show ?thesis by blast
qed

text \<open>
  Two entries whose titles \<open>"Book "\<close> and \<open>"Book  "\<close> differ only in surrounding
  whitespace are aggregated under two keys.
\<close>

theorem untrimmed_key_counterexample:
  "map_option (map fst)
     (parse_highlights
        ''Book (Auth)\<newline>m\<newline>c1\<newline>==========\<newline>Book  (Auth)\<newline>m\<newline>c2\<newline>==========\<newline>'')
   = Some [(''Auth'', ''Book ''), (''Auth'', ''Book  '')]"
  unfolding parse_highlights_def HIGHLIGHT_SEPARATOR_def parse_step_def Highlight_init_def
  by code_simp

text \<open>
  C4 (as amended). Every record returned by \<open>parse_single_highlight\<close> is either
  all-empty or has a non-empty passage and a location that starts with \<open>P\<close>; its title
  or its author may be empty. Every record aggregated into the library has a non-empty
  title and a non-empty author and sits under its own key, and no key has an empty
  sequence.
\<close>

theorem parsed_records_shape:
  "(\<exists>rec. parse_single_highlight s = Some rec
       \<and> (rec = empty_record \<or> (\<exists>t a c p d. rec = (t, a, c, ''P'' @ p, d) \<and> c \<noteq> [])))
   \<and> (\<exists>lib. parse_highlights data = Some lib
       \<and> (\<forall>(k, recs) \<in> set lib. recs \<noteq> []
             \<and> (\<forall>h \<in> set recs. title h \<noteq> [] \<and> author h \<noteq> [] \<and> k = (author h, title h))))"
proof
  show "\<exists>rec. parse_single_highlight s = Some rec
       \<and> (rec = empty_record \<or> (\<exists>t a c p d. rec = (t, a, c, ''P'' @ p, d) \<and> c \<noteq> []))"
  proof (cases "length (nonempty_lines s) = 3")
    case False
    then show ?thesis using parse_wrong_count by blast
  next
    case True
    then obtain h m c where l: "nonempty_lines s = [h, m, c]"
      by (auto simp: length_Suc_conv numeral_3_eq_3)
    then have "c \<in> set (nonempty_lines s)" by simp
    then have c: "c \<noteq> []" by (rule nonempty_lines_free [THEN conjunct2])
    show ?thesis
    proof (cases "re_search h")
      case None
      with l show ?thesis using parse_no_match by blast
    next
      case (Some q)
      then obtain i g where "re_search h = Some (i, g)" by (cases q) auto
      from parse_match [OF l this] c show ?thesis by blast
    qed
  qed
next
  from Highlight_init_all obtain hs
    where hs: "map Highlight_init (split_on HIGHLIGHT_SEPARATOR data) = map Some hs" by blast
  let ?vs = "filter highlight_valid hs"
  let ?lib = "foldl add_highlight [] ?vs"
  have p: "parse_highlights data = Some ?lib" by (rule parse_highlights_fold [OF hs])
  have "recs \<noteq> [] \<and> (\<forall>h \<in> set recs. title h \<noteq> [] \<and> author h \<noteq> [] \<and> k = (author h, title h))"
    if "(k, recs) \<in> set ?lib" for k recs
  proof -
    from lib_entry [OF that]
    have r: "recs = filter (\<lambda>h. book_key h = k) ?vs" and k: "k \<in> book_key ` set ?vs"
      by simp_all
    from k obtain v where "v \<in> set ?vs" "book_key v = k" by auto
    with r have "v \<in> set recs" by simp
    then have "recs \<noteq> []" by auto
    moreover from r have "\<forall>h \<in> set recs. title h \<noteq> [] \<and> author h \<noteq> [] \<and> k = (author h, title h)"
      by (auto simp: highlight_valid_def book_key_def)
    ultimately show ?thesis by blast
  qed
  with p show "\<exists>lib. parse_highlights data = Some lib
       \<and> (\<forall>(k, recs) \<in> set lib. recs \<noteq> []
             \<and> (\<forall>h \<in> set recs. title h \<noteq> [] \<and> author h \<noteq> [] \<and> k = (author h, title h)))"
    by blast
qed

theorem parsed_records_shape_witness:
  "(\<exists>rec. parse_single_highlight ''(Jane Doe)\<newline>- Your Highlight on page 12 | Added on Monday\<newline>Text''
            = Some rec
       \<and> (rec = empty_record \<or> (\<exists>t a c p d. rec = (t, a, c, ''P'' @ p, d) \<and> c \<noteq> [])))
   \<and> (\<exists>lib. parse_highlights two_books_text = Some lib \<and> lib \<noteq> []
       \<and> (\<forall>(k, recs) \<in> set lib. recs \<noteq> []
             \<and> (\<forall>h \<in> set recs. title h \<noteq> [] \<and> author h \<noteq> [] \<and> k = (author h, title h))))"
proof -
  note inst = parsed_records_shape
    [of "''(Jane Doe)\<newline>- Your Highlight on page 12 | Added on Monday\<newline>Text''" two_books_text]
  from inst obtain lib where lib: "parse_highlights two_books_text = Some lib"
    and all: "\<forall>(k, recs) \<in> set lib. recs \<noteq> []
             \<and> (\<forall>h \<in> set recs. title h \<noteq> [] \<and> author h \<noteq> [] \<and> k = (author h, title h))"
    by blast
  from lib have "lib \<noteq> []" unfolding two_books_library by auto
  with lib all inst show ?thesis by blast
qed

text \<open>
  With the header \<open>(Jane Doe)\<close> the record has an empty title and all other fields
  set: it is neither fully populated nor fully empty.
\<close>

theorem partial_record_counterexample:
  "parse_single_highlight ''(Jane Doe)\<newline>- Your Highlight on page 12 | Added on Monday\<newline>Text''
   = Some ([], ''Jane Doe'', ''Text'', ''Page 12'', ''Monday'')"
  by code_simp

section \<open>Chunks\<close>

text \<open>
  C9 (as amended). The text is split at every occurrence of the substring of ten \<open>=\<close>
  characters, found from left to right without overlap, wherever it stands in a line:
  the split returns, the aggregation runs over its chunks, the chunks joined with the
  separator give the text back, no chunk contains the separator, and when no
  occurrence of the separator begins inside \<open>a\<close>, the text \<open>a + separator + b\<close> has the
  first chunk \<open>a\<close>, followed by the chunks of \<open>b\<close>.
\<close>

theorem separator_split:
  "(\<exists>chunks. py_split data HIGHLIGHT_SEPARATOR = Some chunks
       \<and> parse_highlights data = parse_loop [] chunks
       \<and> py_join HIGHLIGHT_SEPARATOR chunks = data
       \<and> (\<forall>x \<in> set chunks. \<not> sublist HIGHLIGHT_SEPARATOR x))
   \<and> (\<not> sublist HIGHLIGHT_SEPARATOR (a @ ''========='')
        \<longrightarrow> py_split (a @ HIGHLIGHT_SEPARATOR @ b) HIGHLIGHT_SEPARATOR
            = map_option (Cons a) (py_split b HIGHLIGHT_SEPARATOR))"
proof
  have ne: "HIGHLIGHT_SEPARATOR \<noteq> []" by (simp add: HIGHLIGHT_SEPARATOR_def)
  let ?chunks = "split_on HIGHLIGHT_SEPARATOR data"
  have "py_split data HIGHLIGHT_SEPARATOR = Some ?chunks" using ne by (simp add: py_split_def)
  moreover have "parse_highlights data = parse_loop [] ?chunks"
    using ne by (simp add: parse_highlights_def py_split_def)
  moreover have "py_join HIGHLIGHT_SEPARATOR ?chunks = data" by (rule py_join_split [OF ne])
  moreover have "\<forall>x \<in> set ?chunks. \<not> sublist HIGHLIGHT_SEPARATOR x"
    using chunk_without_sep [OF ne] by blast
  ultimately show "\<exists>chunks. py_split data HIGHLIGHT_SEPARATOR = Some chunks
       \<and> parse_highlights data = parse_loop [] chunks
       \<and> py_join HIGHLIGHT_SEPARATOR chunks = data
       \<and> (\<forall>x \<in> set chunks. \<not> sublist HIGHLIGHT_SEPARATOR x)"
    by blast
next
  have ne: "HIGHLIGHT_SEPARATOR \<noteq> []" by (simp add: HIGHLIGHT_SEPARATOR_def)
  have bl: "butlast HIGHLIGHT_SEPARATOR = ''=========''" by (simp add: HIGHLIGHT_SEPARATOR_def)
  show "\<not> sublist HIGHLIGHT_SEPARATOR (a @ ''========='')
        \<longrightarrow> py_split (a @ HIGHLIGHT_SEPARATOR @ b) HIGHLIGHT_SEPARATOR
            = map_option (Cons a) (py_split b HIGHLIGHT_SEPARATOR)"
  proof
    assume "\<not> sublist HIGHLIGHT_SEPARATOR (a @ ''========='')"
    then have "\<not> sublist HIGHLIGHT_SEPARATOR (a @ butlast HIGHLIGHT_SEPARATOR)"
      unfolding bl .
    from split_on_leftmost [OF ne this, of b] ne
    show "py_split (a @ HIGHLIGHT_SEPARATOR @ b) HIGHLIGHT_SEPARATOR
            = map_option (Cons a) (py_split b HIGHLIGHT_SEPARATOR)"
      by (simp add: py_split_def)
  qed
qed

theorem separator_split_witness:
  "\<not> sublist HIGHLIGHT_SEPARATOR (''ab'' @ ''========='')
   \<and> py_split (''ab'' @ HIGHLIGHT_SEPARATOR @ ''cd'') HIGHLIGHT_SEPARATOR = Some [''ab'', ''cd'']
   \<and> \<not> sublist HIGHLIGHT_SEPARATOR ''ab'' \<and> \<not> sublist HIGHLIGHT_SEPARATOR ''cd''"
proof -
  have n: "\<not> sublist HIGHLIGHT_SEPARATOR (''ab'' @ ''========='')"
    by (simp add: HIGHLIGHT_SEPARATOR_def sublist_Cons_right)
  have c: "py_split ''cd'' HIGHLIGHT_SEPARATOR = Some [''cd'']"
    by (simp add: py_split_def HIGHLIGHT_SEPARATOR_def)
  note inst = separator_split [where data = "''ab'' @ HIGHLIGHT_SEPARATOR @ ''cd''"
      and a = "''ab''" and b = "''cd''"]
  from inst n have "py_split (''ab'' @ HIGHLIGHT_SEPARATOR @ ''cd'') HIGHLIGHT_SEPARATOR
            = map_option (Cons ''ab'') (py_split ''cd'' HIGHLIGHT_SEPARATOR)"
    by (elim conjE) (erule mp)
  then have s: "py_split (''ab'' @ HIGHLIGHT_SEPARATOR @ ''cd'') HIGHLIGHT_SEPARATOR
            = Some [''ab'', ''cd'']"
    unfolding c by simp
  from inst [THEN conjunct1] obtain chunks where
    ch: "py_split (''ab'' @ HIGHLIGHT_SEPARATOR @ ''cd'') HIGHLIGHT_SEPARATOR = Some chunks
       \<and> parse_highlights (''ab'' @ HIGHLIGHT_SEPARATOR @ ''cd'') = parse_loop [] chunks
       \<and> py_join HIGHLIGHT_SEPARATOR chunks = ''ab'' @ HIGHLIGHT_SEPARATOR @ ''cd''
       \<and> (\<forall>x \<in> set chunks. \<not> sublist HIGHLIGHT_SEPARATOR x)" ..
  from ch [THEN conjunct1] s have "chunks = [''ab'', ''cd'']" by simp
  with ch have "\<forall>x \<in> set [''ab'', ''cd'']. \<not> sublist HIGHLIGHT_SEPARATOR x" by blast
  then have "\<not> sublist HIGHLIGHT_SEPARATOR ''ab''" "\<not> sublist HIGHLIGHT_SEPARATOR ''cd''"
    by simp_all
  with n s show ?thesis by blast
qed

text \<open>
  Ten \<open>=\<close> characters inside a passage line end the chunk there, and a line of eleven
  \<open>=\<close> characters is a boundary too (the eleventh character starts the next chunk).
\<close>

theorem embedded_separator_counterexample:
  "py_split ''T (A)\<newline>m\<newline>xx==========yy'' HIGHLIGHT_SEPARATOR
     = Some [''T (A)\<newline>m\<newline>xx'', ''yy'']
   \<and> py_split ''a\<newline>===========\<newline>b'' HIGHLIGHT_SEPARATOR = Some [''a\<newline>'', ''=\<newline>b'']"
  unfolding HIGHLIGHT_SEPARATOR_def by code_simp

section \<open>Formatting a highlight\<close>

text \<open>
  The formatting function on any record: the prefix of the style (\<open>"> "\<close> for bullet,
  \<open>"- "\<close> for quote, none for paragraph), the content with every newline replaced by one
  space, the suffix chosen by the flags, built from the attributes \<open>date\<close> and \<open>page\<close> of
  the record, and one line terminator: the line ends with a newline and not with two.
\<close>

lemma format_highlight_shape:
  "format_highlight style h add_date add_page =
     (case style of BULLET \<Rightarrow> ''> '' | QUOTE \<Rightarrow> ''- '' | PARAGRAPH \<Rightarrow> [])
     @ map (\<lambda>ch. if ch = CHR ''\<newline>'' then CHR '' '' else ch) (content h)
     @ (if add_date \<and> add_page then '' (Added on '' @ date h @ '', '' @ page h @ '')''
        else if add_date then '' (Added on '' @ date h @ '')''
        else if add_page then '' ('' @ page h @ '')''
        else [])
     @ ''\<newline>''
   \<and> suffix ''\<newline>'' (format_highlight style h add_date add_page)
   \<and> \<not> suffix ''\<newline>\<newline>'' (format_highlight style h add_date add_page)"
proof (intro conjI)
  let ?body = "(case style of BULLET \<Rightarrow> ''> '' | QUOTE \<Rightarrow> ''- '' | PARAGRAPH \<Rightarrow> [])
     @ map (\<lambda>ch. if ch = CHR ''\<newline>'' then CHR '' '' else ch) (content h)
     @ (if add_date \<and> add_page then '' (Added on '' @ date h @ '', '' @ page h @ '')''
        else if add_date then '' (Added on '' @ date h @ '')''
        else if add_page then '' ('' @ page h @ '')''
        else [])"
  have eq: "format_highlight style h add_date add_page = ?body @ ''\<newline>''"
    by (cases style) (simp_all add: format_highlight_def replace_char_def)
  then show "format_highlight style h add_date add_page =
     (case style of BULLET \<Rightarrow> ''> '' | QUOTE \<Rightarrow> ''- '' | PARAGRAPH \<Rightarrow> [])
     @ map (\<lambda>ch. if ch = CHR ''\<newline>'' then CHR '' '' else ch) (content h)
     @ (if add_date \<and> add_page then '' (Added on '' @ date h @ '', '' @ page h @ '')''
        else if add_date then '' (Added on '' @ date h @ '')''
        else if add_page then '' ('' @ page h @ '')''
        else [])
     @ ''\<newline>''"
    by simp
  show "suffix ''\<newline>'' (format_highlight style h add_date add_page)"
    unfolding eq by (rule suffix_appendI) simp
  have m: "ys = [] \<or> last ys \<noteq> CHR ''\<newline>''"
    if "ys = map (\<lambda>ch. if ch = CHR ''\<newline>'' then CHR '' '' else ch) zs" for ys zs
    using that by (cases zs rule: rev_cases) auto
  have "?body = [] \<or> last ?body \<noteq> CHR ''\<newline>''"
  proof (cases "add_date \<or> add_page")
    case True
    then show ?thesis by auto
  next
    case False
    from m [OF refl, of "content h"] False show ?thesis
      by (cases style) auto
  qed
  then show "\<not> suffix ''\<newline>\<newline>'' (format_highlight style h add_date add_page)"
    unfolding eq by (rule no_double_newline)
qed

text \<open>
  C8. The line rendered for a record that the program builds does not carry the suffixes
  of the claim. \<open>Highlight.__init__\<close> stores the location of the sample chunk,
  \<open>"Page 12"\<close>, in the attribute \<open>date\<close> and its timestamp in the attribute \<open>page\<close>, so with
  the date flag alone the suffix is \<open>" (Added on Page 12)"\<close>, with both flags it is
  \<open>" (Added on Page 12, Monday, May 1, 2023 10:00:00 AM)"\<close>, and with the page flag alone it
  is \<open>" (Monday, May 1, 2023 10:00:00 AM)"\<close>: the location stands where the date belongs
  and the date where the location belongs.
\<close>

theorem rendered_suffix_swapped:
  "Highlight_init sample_chunk =
     Some \<lparr>title = ''Sample Book '', author = ''Jane Doe'',
           content = ''This is the highlighted text.'', date = ''Page 12'',
           page = ''Monday, May 1, 2023 10:00:00 AM''\<rparr>
   \<and> format_highlight BULLET
       \<lparr>title = ''Sample Book '', author = ''Jane Doe'',
        content = ''This is the highlighted text.'', date = ''Page 12'',
        page = ''Monday, May 1, 2023 10:00:00 AM''\<rparr> True False
     = ''> This is the highlighted text. (Added on Page 12)\<newline>''
   \<and> format_highlight BULLET
       \<lparr>title = ''Sample Book '', author = ''Jane Doe'',
        content = ''This is the highlighted text.'', date = ''Page 12'',
        page = ''Monday, May 1, 2023 10:00:00 AM''\<rparr> True True
     = ''> This is the highlighted text. (Added on Page 12, Monday, May 1, 2023 10:00:00 AM)\<newline>''
   \<and> format_highlight BULLET
       \<lparr>title = ''Sample Book '', author = ''Jane Doe'',
        content = ''This is the highlighted text.'', date = ''Page 12'',
        page = ''Monday, May 1, 2023 10:00:00 AM''\<rparr> False True
     = ''> This is the highlighted text. (Monday, May 1, 2023 10:00:00 AM)\<newline>''"
  unfolding sample_chunk_def Highlight_init_def by code_simp

end
